theory Spec2Isabelle
  imports Main
begin

section \<open>The tic-tac-toe application of \<^verbatim>\<open>tic_tac_toe_gui.py\<close>\<close>

text \<open>
  The program is one class, \<^verbatim>\<open>TicTacToeApp\<close>, whose methods mutate the fields of
  \<^verbatim>\<open>self\<close>. The model passes the object explicitly: every method takes the state
  and returns the state it leaves behind. The widgets are kept as the data the methods
  write into them (the text of each grid button, the text of the status label), a call of
  \<^verbatim>\<open>messagebox.showinfo\<close> is logged and lets the pending timers fire before it
  returns, and \<^verbatim>\<open>root.after(500, self.computer_move)\<close> increments a count of
  pending callbacks.
\<close>

subsection \<open>Python lists\<close>

datatype error = IndexError

text \<open>
  \<^verbatim>\<open>xs[i]\<close> for a list of length \<open>n\<close>: an index from \<open>0\<close> to \<open>n - 1\<close> is taken as
  it is, an index from \<open>-n\<close> to \<open>-1\<close> counts from the end, anything else raises
  \<^verbatim>\<open>IndexError\<close>. \<open>position\<close> gives the cell that is read or written.
\<close>

definition position :: "nat \<Rightarrow> int \<Rightarrow> error + nat" where
  "position n i =
     (if 0 \<le> i \<and> i < int n then Inr (nat i)
      else if - int n \<le> i \<and> i < 0 then Inr (nat (i + int n))
      else Inl IndexError)"

definition getitem :: "'a list \<Rightarrow> int \<Rightarrow> error + 'a" where
  "getitem xs i = (case position (length xs) i of Inl e \<Rightarrow> Inl e | Inr k \<Rightarrow> Inr (xs ! k))"

definition setitem :: "'a list \<Rightarrow> int \<Rightarrow> 'a \<Rightarrow> error + 'a list" where
  "setitem xs i v = (case position (length xs) i of Inl e \<Rightarrow> Inl e | Inr k \<Rightarrow> Inr (xs[k := v]))"

text \<open>
  \<^verbatim>\<open>random.choice(seq)\<close> returns \<^verbatim>\<open>seq[k]\<close> for some \<open>k\<close> below the length of a
  non-empty \<open>seq\<close>. The draw of the random source is the parameter \<open>r\<close>; every \<open>k\<close>
  below the length is the outcome of some draw.
\<close>

definition choice :: "nat \<Rightarrow> 'a list \<Rightarrow> 'a" where
  "choice r seq = seq ! (r mod length seq)"

subsection \<open>The state of the application\<close>

record app =
  current_player :: string
  board :: "string list"
  buttons :: "string list"
  game_mode :: string
  status_label :: string
  dialogs :: "(string \<times> string) list"
  behind :: "string list list"
  pending :: nat

text \<open>
  \<open>buttons\<close> is the text of each widget of \<^verbatim>\<open>self.buttons\<close>, \<open>status_label\<close> the
  text of the label, and \<open>pending\<close> the number of \<^verbatim>\<open>computer_move\<close> callbacks
  scheduled with \<^verbatim>\<open>root.after\<close> that have not fired yet. Two logs record what the
  user is shown: \<open>dialogs\<close> holds the message boxes opened so far (title, message),
  oldest first, and \<open>behind\<close> the board that was in \<^verbatim>\<open>self.board\<close> at the moment
  each of them opened.
\<close>

text \<open>\<^verbatim>\<open>__init__\<close> with \<^verbatim>\<open>setup_ui\<close>: the state when the window opens.\<close>

definition init :: app where
  "init =
     \<lparr>current_player = ''X'', board = replicate 9 '''', buttons = replicate 9 '''',
      game_mode = ''PvE'', status_label = ''X's Turn'', dialogs = [], behind = [],
      pending = 0\<rparr>"

text \<open>
  \<^verbatim>\<open>messagebox.showinfo\<close> does not return until the user dismisses the box, and Tk
  keeps serving its event loop meanwhile: the grab of the box keeps clicks away from the
  window, but a timer set with \<^verbatim>\<open>root.after\<close> fires. What the callbacks that run
  while the box is open do to the object is the parameter \<open>box\<close>, a function from the
  state in which the box opens to the state in which it closes. Every method that can
  open a box carries this parameter.
\<close>

definition showinfo :: "(app \<Rightarrow> app) \<Rightarrow> string \<Rightarrow> string \<Rightarrow> app \<Rightarrow> app" where
  "showinfo box title message s =
     box (s\<lparr>dialogs := dialogs s @ [(title, message)], behind := behind s @ [board s]\<rparr>)"

definition after :: "app \<Rightarrow> app" where
  "after s = s\<lparr>pending := pending s + 1\<rparr>"

subsection \<open>The methods\<close>

definition reset_game :: "app \<Rightarrow> app" where
  "reset_game s =
     s\<lparr>current_player := ''X'', board := replicate 9 '''', status_label := ''X's Turn'',
       buttons := map (\<lambda>btn. '''') (buttons s)\<rparr>"

definition set_mode :: "(app \<Rightarrow> app) \<Rightarrow> string \<Rightarrow> app \<Rightarrow> app" where
  "set_mode box mode s =
     reset_game
       (showinfo box ''Mode Changed'' (''Game Mode set to: '' @ mode) (s\<lparr>game_mode := mode\<rparr>))"

definition switch_player :: "app \<Rightarrow> app" where
  "switch_player s =
     (let s1 = (if current_player s = ''X'' then s\<lparr>current_player := ''O''\<rparr>
                else s\<lparr>current_player := ''X''\<rparr>)
      in s1\<lparr>status_label := current_player s1 @ '''s Turn''\<rparr>)"

definition winning_combos :: "(int \<times> int \<times> int) list" where
  "winning_combos =
     [(0, 1, 2), (3, 4, 5), (6, 7, 8),
      (0, 3, 6), (1, 4, 7), (2, 5, 8),
      (0, 4, 8), (2, 4, 6)]"

text \<open>
  The condition of the loop body of \<^verbatim>\<open>check_winner\<close>: the three reads happen left to
  right and \<^verbatim>\<open>and\<close> stops at the first comparison that fails.
\<close>

definition combo_holds :: "string list \<Rightarrow> string \<Rightarrow> int \<times> int \<times> int \<Rightarrow> error + bool" where
  "combo_holds cells player combo =
     (case combo of (a, b, c) \<Rightarrow>
        (case getitem cells a of Inl e \<Rightarrow> Inl e | Inr x \<Rightarrow>
           if x \<noteq> player then Inr False
           else (case getitem cells b of Inl e \<Rightarrow> Inl e | Inr y \<Rightarrow>
             if y \<noteq> player then Inr False
             else (case getitem cells c of Inl e \<Rightarrow> Inl e | Inr z \<Rightarrow> Inr (z = player)))))"

fun check_combos :: "string list \<Rightarrow> string \<Rightarrow> (int \<times> int \<times> int) list \<Rightarrow> error + bool" where
  "check_combos cells player [] = Inr False"
| "check_combos cells player (combo # rest) =
     (case combo_holds cells player combo of
        Inl e \<Rightarrow> Inl e
      | Inr True \<Rightarrow> Inr True
      | Inr False \<Rightarrow> check_combos cells player rest)"

definition check_winner :: "string \<Rightarrow> app \<Rightarrow> error + bool" where
  "check_winner player s = check_combos (board s) player winning_combos"

text \<open>
  \<^verbatim>\<open>on_button_click\<close>. An exception leaves the object as the statements before it
  made it, so a raise is \<open>Inl\<close> of the error and the state at that moment. The body
  is in two parts: \<open>conclude_move\<close> is all that follows the writing of the mark to the
  board and to the button, from the call of \<^verbatim>\<open>check_winner\<close> to the end.
\<close>

definition conclude_move :: "(app \<Rightarrow> app) \<Rightarrow> app \<Rightarrow> (error \<times> app) + app" where
  "conclude_move box s =
     (case check_winner (current_player s) s of
        Inl e \<Rightarrow> Inl (e, s)
      | Inr True \<Rightarrow>
          Inr (reset_game
            (showinfo box ''Game Over'' (''Player '' @ current_player s @ '' wins!'') s))
      | Inr False \<Rightarrow>
          if '''' \<notin> set (board s)
          then Inr (reset_game (showinfo box ''Game Over'' ''It's a Draw!'' s))
          else
            let s1 = switch_player s in
            if game_mode s1 = ''PvE'' \<and> current_player s1 = ''O''
            then Inr (after s1)
            else Inr s1)"

definition on_button_click :: "(app \<Rightarrow> app) \<Rightarrow> int \<Rightarrow> app \<Rightarrow> (error \<times> app) + app" where
  "on_button_click box index s =
     (case getitem (board s) index of
        Inl e \<Rightarrow> Inl (e, s)
      | Inr cell \<Rightarrow>
          if cell \<noteq> '''' then Inr s
          else (case setitem (board s) index (current_player s) of
            Inl e \<Rightarrow> Inl (e, s)
          | Inr cells \<Rightarrow>
              let s1 = s\<lparr>board := cells\<rparr> in
              (case setitem (buttons s1) index (current_player s1) of
                 Inl e \<Rightarrow> Inl (e, s1)
               | Inr texts \<Rightarrow> conclude_move box (s1\<lparr>buttons := texts\<rparr>))))"

definition available_moves :: "app \<Rightarrow> nat list" where
  "available_moves s = map fst (filter (\<lambda>(i, x). x = '''') (enumerate 0 (board s)))"

definition computer_move :: "(app \<Rightarrow> app) \<Rightarrow> nat \<Rightarrow> app \<Rightarrow> (error \<times> app) + app" where
  "computer_move box r s =
     (let moves = available_moves s in
      if moves \<noteq> [] then on_button_click box (int (choice r moves)) s else Inr s)"

subsection \<open>The event loop\<close>

text \<open>
  The object rests in a state whenever Tk waits for an event, in \<^verbatim>\<open>root.mainloop()\<close>
  or behind an open message box. \<open>final_state\<close> is the object after a handler has
  returned or raised; Tk reports an exception of a handler and goes on. \<open>timer_fires\<close>
  is the timer of a pending \<^verbatim>\<open>root.after\<close> running \<^verbatim>\<open>computer_move\<close>; when no
  callback is pending the timer has nothing to run.
\<close>

definition final_state :: "(error \<times> app) + app \<Rightarrow> app" where
  "final_state res = (case res of Inl (e, s) \<Rightarrow> s | Inr s \<Rightarrow> s)"

definition timer_fires :: "(app \<Rightarrow> app) \<Rightarrow> nat \<Rightarrow> app \<Rightarrow> (error \<times> app) + app" where
  "timer_fires box r s =
     (if pending s = 0 then Inr s else computer_move box r (s\<lparr>pending := pending s - 1\<rparr>))"

text \<open>
  What happens while a box is open is a list of firings. A firing is one callback that
  runs, with the draw its \<^verbatim>\<open>random.choice\<close> makes and with the firings that happen
  in turn while the box of this callback, if it opens one, is open. \<open>events fs\<close> is
  the \<open>box\<close> parameter for the list \<open>fs\<close>; with the empty list the box is dismissed
  before any timer fires.
\<close>

datatype firing = Fire nat "firing list"

fun fire :: "firing \<Rightarrow> app \<Rightarrow> app"
  and events :: "firing list \<Rightarrow> app \<Rightarrow> app" where
  "fire (Fire r inner) s = final_state (timer_fires (\<lambda>b. events inner b) r s)"
| "events [] s = s"
| "events (f # fs) s = events fs (fire f s)"

text \<open>
  The events of the main loop are those the window is wired to: a click on a grid
  button, the reset button, one of the entries of the settings menu, and the timer. A
  click and a change of mode come with the firings that happen while their box is open.
  A click may carry any integer, not only the nine the grid passes, and the mode may be
  any string.
\<close>

datatype event = Click int "firing list" | Reset | Mode string "firing list" | Timer firing

fun handle :: "event \<Rightarrow> app \<Rightarrow> app" where
  "handle (Click index fs) s = final_state (on_button_click (events fs) index s)"
| "handle Reset s = reset_game s"
| "handle (Mode mode fs) s = set_mode (events fs) mode s"
| "handle (Timer f) s = fire f s"

definition run :: "event list \<Rightarrow> app \<Rightarrow> app" where
  "run evs s = fold handle evs s"

text \<open>
  The states in which the program waits in its main loop, starting from any reset state
  of a window with its nine buttons.
\<close>

inductive reachable :: "app \<Rightarrow> bool" where
  start: "length (buttons s0) = 9 \<Longrightarrow> reachable (reset_game s0)"
| step: "reachable s \<Longrightarrow> reachable (handle e s)"

subsection \<open>Notions of the specification\<close>

text \<open>
  A line of the board is complete for a mark when its three cells hold that mark; the
  eight lines are written out as the specification lists them.
\<close>

definition line_complete :: "string list \<Rightarrow> string \<Rightarrow> bool" where
  "line_complete cells m \<longleftrightarrow>
     (cells ! 0 = m \<and> cells ! 1 = m \<and> cells ! 2 = m) \<or>
     (cells ! 3 = m \<and> cells ! 4 = m \<and> cells ! 5 = m) \<or>
     (cells ! 6 = m \<and> cells ! 7 = m \<and> cells ! 8 = m) \<or>
     (cells ! 0 = m \<and> cells ! 3 = m \<and> cells ! 6 = m) \<or>
     (cells ! 1 = m \<and> cells ! 4 = m \<and> cells ! 7 = m) \<or>
     (cells ! 2 = m \<and> cells ! 5 = m \<and> cells ! 8 = m) \<or>
     (cells ! 0 = m \<and> cells ! 4 = m \<and> cells ! 8 = m) \<or>
     (cells ! 2 = m \<and> cells ! 4 = m \<and> cells ! 6 = m)"


text \<open>The state once the current mark is written to cell \<open>k\<close> and to its button.\<close>

definition placed :: "nat \<Rightarrow> app \<Rightarrow> app" where
  "placed k s =
     s\<lparr>board := (board s)[k := current_player s], buttons := (buttons s)[k := current_player s]\<rparr>"

subsection \<open>Auxiliary notions of the proofs\<close>

definition inside :: "nat \<Rightarrow> int \<times> int \<times> int \<Rightarrow> bool" where
  "inside n combo \<longleftrightarrow>
     (case combo of (a, b, c) \<Rightarrow>
        0 \<le> a \<and> a < int n \<and> 0 \<le> b \<and> b < int n \<and> 0 \<le> c \<and> c < int n)"

definition uniform :: "string list \<Rightarrow> string \<Rightarrow> int \<times> int \<times> int \<Rightarrow> bool" where
  "uniform cells m combo \<longleftrightarrow>
     (case combo of (a, b, c) \<Rightarrow> cells ! nat a = m \<and> cells ! nat b = m \<and> cells ! nat c = m)"



text \<open>
  What no method undoes, from a state \<open>s\<close> to a later state \<open>s'\<close>: the number of
  buttons and the mode are the same, and the log of boxes has only grown. A \<open>box\<close>
  parameter is \<open>calm\<close> when the state in which the box closes is so related to the
  state in which it opened.
\<close>

definition keeps :: "app \<Rightarrow> app \<Rightarrow> bool" where
  "keeps s s' \<longleftrightarrow>
     length (buttons s') = length (buttons s) \<and> game_mode s' = game_mode s \<and>
     (\<exists>more. dialogs s' = dialogs s @ more)"

definition calm :: "(app \<Rightarrow> app) \<Rightarrow> bool" where
  "calm box \<longleftrightarrow> (\<forall>s. keeps s (box s))"

text \<open>States of games under way, on which the properties are shown at work.\<close>

definition two_player :: app where
  "two_player = run [Mode ''PvP'' []] init"

definition before_win :: app where
  "before_win = run [Click 0 [], Click 3 [], Click 1 [], Click 4 []] two_player"


definition stale_timer :: app where
  "stale_timer = run [Click 0 [], Reset] init"

text \<open>
  Against the computer: X on 0, the computer's O on 3, X on 1, the computer's O on 4,
  X on 8, which schedules the computer's next move.
\<close>

definition before_race :: app where
  "before_race =
     run [Click 0 [], Timer (Fire 2 []), Click 1 [], Timer (Fire 1 []), Click 8 []] init"

section \<open>Properties\<close>

subsection \<open>Indexing\<close>

lemma position_Inr: "position n i = Inr k \<Longrightarrow> k < n"
  by (auto simp: position_def split: if_splits)

lemma position_nat: "k < n \<Longrightarrow> position n (int k) = Inr k"
  by (simp add: position_def)

lemma position_outside: "i < - int n \<or> int n \<le> i \<Longrightarrow> position n i = Inl IndexError"
  by (auto simp: position_def)

lemma getitem_nat: "0 \<le> a \<Longrightarrow> a < int (length xs) \<Longrightarrow> getitem xs a = Inr (xs ! nat a)"
  by (simp add: getitem_def position_def)

lemma getitem_member: "getitem xs i = Inr x \<Longrightarrow> x \<in> set xs"
  by (auto simp: getitem_def split: sum.splits dest: position_Inr)

lemma length_setitem: "setitem xs i v = Inr ys \<Longrightarrow> length ys = length xs"
  by (auto simp: setitem_def split: sum.splits)

subsection \<open>The win check\<close>

lemma combo_holds_inside:
  "inside (length cells) combo \<Longrightarrow> combo_holds cells m combo = Inr (uniform cells m combo)"
  by (cases combo) (simp add: combo_holds_def inside_def uniform_def getitem_nat)

lemma check_combos_inside:
  "list_all (inside (length cells)) combos \<Longrightarrow>
     check_combos cells m combos = Inr (list_ex (uniform cells m) combos)"
  by (induction combos) (simp_all add: combo_holds_inside split: bool.splits)

lemma check_winner_line_complete:
  "length (board s) = 9 \<Longrightarrow> check_winner m s = Inr (line_complete (board s) m)"
proof -
  assume len: "length (board s) = 9"
  have "list_all (inside (length (board s))) winning_combos"
    by (simp add: len winning_combos_def inside_def)
  then have "check_winner m s = Inr (list_ex (uniform (board s) m) winning_combos)"
    unfolding check_winner_def by (rule check_combos_inside)
  also have "list_ex (uniform (board s) m) winning_combos = line_complete (board s) m"
    by (simp add: winning_combos_def uniform_def line_complete_def)
  finally show ?thesis .
qed

subsection \<open>The three ways a click ends\<close>

lemma on_button_click_raises:
  "position (length (board s)) index = Inl e \<Longrightarrow> on_button_click box index s = Inl (e, s)"
  by (simp add: on_button_click_def getitem_def)

lemma on_button_click_taken:
  "position (length (board s)) index = Inr k \<Longrightarrow> board s ! k \<noteq> '''' \<Longrightarrow>
     on_button_click box index s = Inr s"
  by (simp add: on_button_click_def getitem_def)

lemma on_button_click_placed:
  assumes "length (board s) = 9" "length (buttons s) = 9"
    "position 9 index = Inr k" "board s ! k = ''''"
  shows "on_button_click box index s = conclude_move box (placed k s)"
  using assms by (simp add: on_button_click_def getitem_def setitem_def Let_def placed_def)

lemma conclude_move_cases:
  assumes "length (board s) = 9"
  shows "conclude_move box s =
     Inr (if line_complete (board s) (current_player s)
          then reset_game
            (showinfo box ''Game Over'' (''Player '' @ current_player s @ '' wins!'') s)
          else if '''' \<notin> set (board s)
          then reset_game (showinfo box ''Game Over'' ''It's a Draw!'' s)
          else if game_mode s = ''PvE'' \<and> current_player (switch_player s) = ''O''
          then after (switch_player s)
          else switch_player s)"
proof -
  have g: "game_mode (switch_player s) = game_mode s"
    by (simp add: switch_player_def Let_def)
  show ?thesis
    by (simp add: conclude_move_def check_winner_line_complete [OF assms] g Let_def)
qed

lemma board_placed: "board (placed k s) = (board s)[k := current_player s]"
  by (simp add: placed_def)

lemma current_player_placed: "current_player (placed k s) = current_player s"
  by (simp add: placed_def)



lemma board_switch_player: "board (switch_player s) = board s"
  by (simp add: switch_player_def Let_def)



lemma fields_after:
  "board (after s) = board s" "dialogs (after s) = dialogs s"
  "current_player (after s) = current_player s"
  by (simp_all add: after_def)

lemma board_reset_game: "board (reset_game s) = replicate 9 ''''"
  by (simp add: reset_game_def)

lemma current_player_reset_game: "current_player (reset_game s) = ''X''"
  by (simp add: reset_game_def)


subsection \<open>What the callbacks in an open box leave alone\<close>

lemma keeps_refl: "keeps s s"
  by (simp add: keeps_def)

lemma keeps_trans: "keeps s t \<Longrightarrow> keeps t u \<Longrightarrow> keeps s u"
  by (auto simp: keeps_def)

lemma keeps_reset_game: "keeps s (reset_game s)"
  by (simp add: keeps_def reset_game_def)

lemma keeps_switch_player: "keeps s (switch_player s)"
  by (simp add: keeps_def switch_player_def Let_def)

lemma keeps_after: "keeps s (after s)"
  by (simp add: keeps_def after_def)

lemma keeps_showinfo: "calm box \<Longrightarrow> keeps s (showinfo box t m s)"
proof -
  assume "calm box"
  then have "keeps (s\<lparr>dialogs := dialogs s @ [(t, m)], behind := behind s @ [board s]\<rparr>)
      (showinfo box t m s)"
    by (simp add: calm_def showinfo_def)
  moreover have "keeps s (s\<lparr>dialogs := dialogs s @ [(t, m)], behind := behind s @ [board s]\<rparr>)"
    by (simp add: keeps_def)
  ultimately show ?thesis by (blast intro: keeps_trans)
qed



lemma keeps_conclude_move:
  assumes "calm box"
  shows "keeps s (final_state (conclude_move box s))"
proof (cases "check_winner (current_player s) s")
  case (Inl e)
  then show ?thesis by (simp add: conclude_move_def final_state_def keeps_refl)
next
  case (Inr won)
  have r: "keeps s (reset_game (showinfo box t m s))" for t m
    by (rule keeps_trans [OF keeps_showinfo [OF assms] keeps_reset_game])
  have a: "keeps s (after (switch_player s))"
    by (rule keeps_trans [OF keeps_switch_player keeps_after])
  from Inr r a show ?thesis
    by (cases won) (simp_all add: conclude_move_def final_state_def Let_def keeps_switch_player)
qed

lemma keeps_on_button_click:
  assumes "calm box"
  shows "keeps s (final_state (on_button_click box index s))"
proof (cases "getitem (board s) index")
  case (Inl e)
  then show ?thesis by (simp add: on_button_click_def final_state_def keeps_refl)
next
  case cell: (Inr cell)
  show ?thesis
  proof (cases "cell = ''''")
    case False
    with cell show ?thesis by (simp add: on_button_click_def final_state_def keeps_refl)
  next
    case True
    show ?thesis
    proof (cases "setitem (board s) index (current_player s)")
      case (Inl e)
      with cell True show ?thesis
        by (simp add: on_button_click_def final_state_def keeps_refl)
    next
      case cells: (Inr cells)
      show ?thesis
      proof (cases "setitem (buttons s) index (current_player s)")
        case (Inl e)
        with cell True cells show ?thesis
          by (simp add: on_button_click_def final_state_def keeps_def)
      next
        case (Inr texts)
        then have "length texts = length (buttons s)" by (rule length_setitem)
        then have "keeps s (s\<lparr>board := cells, buttons := texts\<rparr>)"
          by (simp add: keeps_def)
        from keeps_trans [OF this keeps_conclude_move [OF assms]] cell True cells Inr
        show ?thesis by (simp add: on_button_click_def)
      qed
    qed
  qed
qed

lemma keeps_timer_fires:
  assumes "calm box"
  shows "keeps s (final_state (timer_fires box r s))"
proof -
  have "keeps s (s\<lparr>pending := pending s - 1\<rparr>)" by (simp add: keeps_def)
  from keeps_trans [OF this keeps_on_button_click [OF assms]]
  show ?thesis
    by (simp add: timer_fires_def computer_move_def Let_def)
      (simp add: final_state_def keeps_def)
qed

lemma keeps_fire_events: "keeps s (fire f s)" "keeps s (events fs s)"
proof (induction f s and fs s rule: fire_events.induct)
  case (1 r inner s)
  then have "calm (events inner)" by (simp add: calm_def)
  then show ?case by (simp add: keeps_timer_fires)
next
  case (2 s)
  show ?case by (simp add: keeps_refl)
next
  case (3 f fs s)
  then show ?case by (auto intro: keeps_trans)
qed

lemma calm_events: "calm (events fs)"
  by (simp add: calm_def keeps_fire_events)

subsection \<open>Counting marks and completing lines\<close>







subsection \<open>The invariant\<close>















subsection \<open>Games under way\<close>

lemma reachable_init: "reachable init"
proof -
  have "init = reset_game init" by (simp add: init_def reset_game_def)
  moreover have "reachable (reset_game init)" by (rule reachable.start) (simp add: init_def)
  ultimately show ?thesis by simp
qed

lemma reachable_run: "reachable s \<Longrightarrow> reachable (run evs s)"
  unfolding run_def by (induction evs arbitrary: s) (simp_all add: reachable.step)




lemma reachable_before_race: "reachable before_race"
  unfolding before_race_def by (rule reachable_run [OF reachable_init])

lemma before_win_eq:
  "before_win =
     \<lparr>current_player = ''X'', board = [''X'', ''X'', '''', ''O'', ''O'', '''', '''', '''', ''''],
      buttons = [''X'', ''X'', '''', ''O'', ''O'', '''', '''', '''', ''''],
      game_mode = ''PvP'', status_label = ''X's Turn'',
      dialogs = [(''Mode Changed'', ''Game Mode set to: PvP'')],
      behind = [['''', '''', '''', '''', '''', '''', '''', '''', '''']], pending = 0\<rparr>"
  by code_simp


lemma stale_timer_eq:
  "stale_timer =
     \<lparr>current_player = ''X'', board = replicate 9 '''', buttons = replicate 9 '''',
      game_mode = ''PvE'', status_label = ''X's Turn'', dialogs = [], behind = [],
      pending = 1\<rparr>"
  by code_simp

lemma before_race_eq:
  "before_race =
     \<lparr>current_player = ''O'', board = [''X'', ''X'', '''', ''O'', ''O'', '''', '''', '''', ''X''],
      buttons = [''X'', ''X'', '''', ''O'', ''O'', '''', '''', '''', ''X''],
      game_mode = ''PvE'', status_label = ''O's Turn'', dialogs = [], behind = [],
      pending = 1\<rparr>"
  by code_simp

subsection \<open>The cells the computer chooses from\<close>

lemma set_available_moves:
  "set (available_moves s) = {i. i < length (board s) \<and> board s ! i = ''''}"
  by (force simp: available_moves_def in_set_enumerate_eq image_iff)

lemma available_moves_nonempty: "'''' \<in> set (board s) \<Longrightarrow> available_moves s \<noteq> []"
proof -
  assume "'''' \<in> set (board s)"
  then obtain i where "i < length (board s)" "board s ! i = ''''"
    by (auto simp: in_set_conv_nth)
  then have "i \<in> set (available_moves s)" by (simp add: set_available_moves)
  then show ?thesis by auto
qed


lemma choice_in_set: "seq \<noteq> [] \<Longrightarrow> choice r seq \<in> set seq"
  by (simp add: choice_def)

lemma choice_reaches: "x \<in> set seq \<Longrightarrow> \<exists>r. choice r seq = x"
proof -
  assume "x \<in> set seq"
  then obtain i where "i < length seq" "seq ! i = x" by (auto simp: in_set_conv_nth)
  then have "choice i seq = x" by (simp add: choice_def)
  then show ?thesis ..
qed

subsection \<open>A box over a full board\<close>




section \<open>The claims\<close>

text \<open>
  C1. On a board of nine cells, \<^verbatim>\<open>check_winner\<close> returns, without raising, and its
  answer for a mark \<open>m\<close> is true exactly when one of the eight lines
  (0,1,2), (3,4,5), (6,7,8), (0,3,6), (1,4,7), (2,5,8), (0,4,8), (2,4,6) has its three
  cells equal to \<open>m\<close>.
\<close>

theorem check_winner_iff_line:
  assumes "length (board s) = 9"
  shows "check_winner m s = Inr (line_complete (board s) m)"
  using assms by (rule check_winner_line_complete)

theorem check_winner_iff_line_witness:
  "length (board (placed 2 before_win)) = 9 \<and>
   check_winner ''X'' (placed 2 before_win) = Inr True \<and>
   check_winner ''O'' (placed 2 before_win) = Inr False"
proof -
  have len: "length (board (placed 2 before_win)) = 9"
    by (simp add: before_win_eq placed_def)
  from check_winner_iff_line [OF len, of "''X''"] check_winner_iff_line [OF len, of "''O''"] len
  show ?thesis
    by (simp add: before_win_eq placed_def line_complete_def)
qed



text \<open>
  C3, as the code has it. The claim asks that a click outside 0 to 8 be ignored in
  silence. The method has no range check: the first statement reads
  \<^verbatim>\<open>self.board[index]\<close>, so an index below -9 or above 8 raises \<^verbatim>\<open>IndexError\<close>
  before anything is written (the state is as before, the exception reaches the caller),
  and an index from -9 to -1 counts from the end of the list and is the click on cell
  \<open>index + 9\<close>.
\<close>

theorem out_of_range_click:
  assumes "length (board s) = 9" "length (buttons s) = 9"
  shows "(index < - 9 \<or> 8 < index \<longrightarrow> on_button_click box index s = Inl (IndexError, s)) \<and>
         (- 9 \<le> index \<and> index < 0 \<longrightarrow>
            on_button_click box index s = on_button_click box (index + 9) s)"
proof (intro conjI impI)
  assume "index < - 9 \<or> 8 < index"
  with assms(1) have "position (length (board s)) index = Inl IndexError"
    by (auto intro: position_outside)
  then show "on_button_click box index s = Inl (IndexError, s)"
    by (rule on_button_click_raises)
next
  assume neg: "- 9 \<le> index \<and> index < 0"
  define k where "k = nat (index + 9)"
  from neg have p: "position 9 index = Inr k" "position 9 (index + 9) = Inr k"
    by (simp_all add: position_def k_def)
  show "on_button_click box index s = on_button_click box (index + 9) s"
  proof (cases "board s ! k = ''''")
    case True
    with assms p show ?thesis by (simp add: on_button_click_placed)
  next
    case False
    with assms(1) p show ?thesis by (simp add: on_button_click_taken)
  qed
qed

theorem out_of_range_click_witness:
  "length (board init) = 9 \<and> length (buttons init) = 9 \<and>
   on_button_click (events []) 12 init = Inl (IndexError, init) \<and>
   on_button_click (events []) (- 9) init = on_button_click (events []) 0 init"
proof -
  have a: "length (board init) = 9" and b: "length (buttons init) = 9"
    by (simp_all add: init_def)
  from out_of_range_click [OF a b, of 12 "events []"]
    out_of_range_click [OF a b, of "- 9" "events []"] a b
  show ?thesis by simp
qed

text \<open>
  The claim as stated fails twice on the opening state: the click on 9 raises, and the
  click on -1 puts an X in cell 8.
\<close>

theorem out_of_range_click_counterexample:
  "on_button_click (events []) 9 init = Inl (IndexError, init) \<and>
   board (final_state (on_button_click (events []) (- 1) init)) =
     ['''', '''', '''', '''', '''', '''', '''', '''', ''X'']"
  by code_simp

text \<open>
  C4. A click on a cell from 0 to 8 that already holds a mark returns at once: the whole
  state, so the board and the turn, is as before.
\<close>

theorem occupied_cell_unchanged:
  assumes "length (board s) = 9" "0 \<le> index" "index \<le> 8" "board s ! nat index \<noteq> ''''"
  shows "on_button_click box index s = Inr s"
proof -
  from assms(1-3) have "position (length (board s)) index = Inr (nat index)"
    by (simp add: position_def)
  from this assms(4) show ?thesis by (rule on_button_click_taken)
qed

theorem occupied_cell_unchanged_witness:
  "length (board before_win) = 9 \<and> board before_win ! nat 3 = ''O'' \<and>
   on_button_click (events []) 3 before_win = Inr before_win"
proof -
  have a: "length (board before_win) = 9" and b: "board before_win ! nat 3 \<noteq> ''''"
    and c: "board before_win ! nat 3 = ''O''"
    by (simp_all add: before_win_eq)
  from occupied_cell_unchanged [OF a _ _ b, of "events []"] a c show ?thesis by simp
qed



text \<open>
  C6. When the board has an empty cell, \<^verbatim>\<open>computer_move\<close> clicks on a cell taken
  from \<open>available_moves\<close>, which holds exactly the cells that are empty before the call;
  each of them is the choice for some draw of the random source.
\<close>

theorem computer_move_picks_empty:
  assumes "'''' \<in> set (board s)"
  shows "set (available_moves s) = {i. i < length (board s) \<and> board s ! i = ''''} \<and>
         choice r (available_moves s) \<in> set (available_moves s) \<and>
         computer_move box r s = on_button_click box (int (choice r (available_moves s))) s \<and>
         (\<forall>i\<in>set (available_moves s). \<exists>r'. choice r' (available_moves s) = i)"
proof -
  from assms have ne: "available_moves s \<noteq> []" by (rule available_moves_nonempty)
  then have "computer_move box r s =
      on_button_click box (int (choice r (available_moves s))) s"
    by (simp add: computer_move_def Let_def)
  with ne show ?thesis
    by (simp add: set_available_moves [symmetric] choice_in_set choice_reaches)
qed

theorem computer_move_picks_empty_witness:
  "'''' \<in> set (board before_win) \<and>
   set (available_moves before_win) = {2, 5, 6, 7, 8} \<and>
   choice 11 (available_moves before_win) = 5 \<and>
   computer_move (events []) 11 before_win = on_button_click (events []) 5 before_win"
proof -
  have a: "'''' \<in> set (board before_win)" by (simp add: before_win_eq)
  have b: "available_moves before_win = [2, 5, 6, 7, 8]" by code_simp
  from computer_move_picks_empty [OF a, of 11 "events []"] a show ?thesis
    by (simp add: b choice_def)
qed

text \<open>
  C7, where the code fails it. While the program waits in its main loop the board holds
  as many X as O or one X more (\<open>reachable_sound\<close>). It does not at all times: a
  callback scheduled with \<^verbatim>\<open>root.after\<close> is never cancelled, and nothing in
  \<^verbatim>\<open>computer_move\<close> asks whether the game is over. Against the computer, after X on
  0, O on 3, X on 1, O on 4 and X on 8 the computer's move is pending. The user clicks
  cell 5 before the timer fires: the click writes an O, which completes the line
  (3,4,5), and the box "Player O wins!" opens. The timer fires while the box is open and
  the callback writes one more O, in cell 2: the board behind the second box holds three
  X and four O.
\<close>

theorem stale_callback_unbalances_board:
  "reachable before_race \<and> pending before_race = 1 \<and>
   behind (handle (Click 5 [Fire 0 []]) before_race) =
     [[''X'', ''X'', '''', ''O'', ''O'', ''O'', '''', '''', ''X''],
      [''X'', ''X'', ''O'', ''O'', ''O'', ''O'', '''', '''', ''X'']] \<and>
   count_list (last (behind (handle (Click 5 [Fire 0 []]) before_race))) ''X'' = 3 \<and>
   count_list (last (behind (handle (Click 5 [Fire 0 []]) before_race))) ''O'' = 4"
proof -
  have b: "behind (handle (Click 5 [Fire 0 []]) before_race) =
     [[''X'', ''X'', '''', ''O'', ''O'', ''O'', '''', '''', ''X''],
      [''X'', ''X'', ''O'', ''O'', ''O'', ''O'', '''', '''', ''X'']]"
    by code_simp
  show ?thesis
    unfolding b using reachable_before_race by (simp add: before_race_eq)
qed

text \<open>
  C8. \<^verbatim>\<open>reset_game\<close>, from any state, leaves nine empty cells and the turn with X, and
  does not touch the mode.
\<close>

theorem reset_game_clears:
  "board (reset_game s) = replicate 9 '''' \<and> current_player (reset_game s) = ''X'' \<and>
   game_mode (reset_game s) = game_mode s"
  by (simp add: reset_game_def)

text \<open>
  C9. \<^verbatim>\<open>set_mode\<close>, from any state and whatever fires while its box is open, stores
  its argument as the mode and resets: nine empty cells, the turn with X.
\<close>

theorem set_mode_resets:
  "game_mode (set_mode (events fs) mode s) = mode \<and>
   board (set_mode (events fs) mode s) = replicate 9 '''' \<and>
   current_player (set_mode (events fs) mode s) = ''X''"
proof -
  have "keeps (s\<lparr>game_mode := mode\<rparr>)
      (showinfo (events fs) ''Mode Changed'' (''Game Mode set to: '' @ mode) (s\<lparr>game_mode := mode\<rparr>))"
    by (rule keeps_showinfo [OF calm_events])
  then have "game_mode (set_mode (events fs) mode s) = mode"
    by (simp add: set_mode_def keeps_def reset_game_def)
  then show ?thesis
    by (simp add: set_mode_def board_reset_game current_player_reset_game)
qed

text \<open>
  C10. When the board, of nine cells with their nine buttons, has an empty cell,
  \<^verbatim>\<open>computer_move\<close> writes the mark of \<^verbatim>\<open>self.current_player\<close>, whichever it is,
  to the empty cell it chose and goes on as after any click; when that mark neither wins
  nor fills the board, the board it leaves is the old one with that mark in the cell.
  Nothing in the method names O.
\<close>

theorem computer_move_writes_current_player:
  assumes "length (board s) = 9" "length (buttons s) = 9" "'''' \<in> set (board s)"
  shows "\<exists>k<9. k = choice r (available_moves s) \<and> board s ! k = '''' \<and>
     computer_move box r s =
       conclude_move box (s\<lparr>board := (board s)[k := current_player s],
                            buttons := (buttons s)[k := current_player s]\<rparr>) \<and>
     (\<not> line_complete ((board s)[k := current_player s]) (current_player s) \<and>
      '''' \<in> set ((board s)[k := current_player s]) \<longrightarrow>
        board (final_state (computer_move box r s)) = (board s)[k := current_player s])"
proof -
  define k where "k = choice r (available_moves s)"
  from assms(3) have ne: "available_moves s \<noteq> []" by (rule available_moves_nonempty)
  then have "k \<in> set (available_moves s)" unfolding k_def by (rule choice_in_set)
  with assms(1) have k: "k < 9" and e: "board s ! k = ''''"
    by (simp_all add: set_available_moves)
  from k have p: "position 9 (int k) = Inr k" by (rule position_nat)
  have cm: "computer_move box r s = conclude_move box (placed k s)"
    using ne by (simp add: computer_move_def Let_def k_def [symmetric]
        on_button_click_placed [OF assms(1,2) p e])
  have lp: "length (board (placed k s)) = 9" using assms(1) by (simp add: board_placed)
  have "board (final_state (computer_move box r s)) = (board s)[k := current_player s]"
    if "\<not> line_complete ((board s)[k := current_player s]) (current_player s)"
      "'''' \<in> set ((board s)[k := current_player s])"
    using that unfolding cm conclude_move_cases [OF lp]
    by (simp add: final_state_def board_placed current_player_placed fields_after
        board_switch_player)
  with k e cm show ?thesis
    unfolding k_def [symmetric] by (auto simp: placed_def)
qed

text \<open>
  The case of the stale timer: X clicks cell 0 against the computer, a move of the
  computer is scheduled, the game is reset before the timer fires. The turn is X again
  when it does, and the computer's move puts an X on the board.
\<close>

theorem computer_move_writes_current_player_witness:
  "pending stale_timer = 1 \<and> current_player stale_timer = ''X'' \<and>
   timer_fires (events []) 4 stale_timer =
     computer_move (events []) 4 (stale_timer\<lparr>pending := 0\<rparr>) \<and>
   board (final_state (computer_move (events []) 4 (stale_timer\<lparr>pending := 0\<rparr>))) =
     ['''', '''', '''', '''', ''X'', '''', '''', '''', '''']"
proof -
  let ?s = "stale_timer\<lparr>pending := 0\<rparr>"
  have a: "length (board ?s) = 9" "length (buttons ?s) = 9" "'''' \<in> set (board ?s)"
    by (simp_all add: stale_timer_eq)
  have c: "choice 4 (available_moves ?s) = 4" by code_simp
  have b: "(board ?s)[4 := current_player ?s] =
      ['''', '''', '''', '''', ''X'', '''', '''', '''', '''']"
    by code_simp
  from computer_move_writes_current_player [OF a, of 4 "events []"]
  have "\<not> line_complete ((board ?s)[4 := current_player ?s]) (current_player ?s) \<and>
      '''' \<in> set ((board ?s)[4 := current_player ?s]) \<longrightarrow>
        board (final_state (computer_move (events []) 4 ?s)) =
          (board ?s)[4 := current_player ?s]"
    unfolding c by blast
  then have "board (final_state (computer_move (events []) 4 ?s)) =
      ['''', '''', '''', '''', ''X'', '''', '''', '''', '''']"
    unfolding b by (simp add: line_complete_def stale_timer_eq)
  then show ?thesis
    by (simp add: timer_fires_def stale_timer_eq)
qed

end
